theory Spec2Isabelle
  imports Main
begin

section \<open>Values exchanged with the Remote Package API\<close>

text \<open>
  The payload of a response is typed \<^verbatim>\<open>any\<close> in the source and is cast, unchecked, to
  the type of the channel it is published into. It is therefore modelled as an untyped
  JavaScript value.
\<close>

datatype json =
    JUndefined
  | JNull
  | JBool bool
  | JNum int
  | JStr string
  | JArr "json list"
  | JObj "(string \<times> json) list"

text \<open>
  \<^verbatim>\<open>APIResponse\<close> is imported by the store; the store reads its fields \<^verbatim>\<open>code\<close> and
  \<^verbatim>\<open>message\<close> only.
\<close>

record APIResponse =
  code :: int
  message :: json

text \<open>
  A fetch is a promise. It is fulfilled with a response, rejected with a reason (a transport
  failure), or it never settles; in the last case no settlement is ever delivered.
\<close>

datatype outcome = Fulfilled APIResponse | Rejected json

datatype request = GetPackages | Get string

section \<open>Observable channels\<close>

datatype notification = Next json | Error json | Complete

text \<open>
  Modelled from the spec: the class \<^verbatim>\<open>BehaviorSubject\<close> of the reactive-streams library is
  used by the store but is not part of the sources. The spec describes it as a push-based
  stream that holds a current value, delivers it to every subscriber immediately upon
  subscription, and notifies all current subscribers on each subsequent update. The
  observer protocol also has the two terminal notifications (error, completion); they are
  kept here, with the flags that record them, so that ``never completes, never errors'' is
  a property of what the store does with its subjects and not of the type.

  Subscribers are numbered in the order of subscription; \<open>inbox b k\<close> is what subscriber
  \<open>k\<close> has received so far, \<open>observers b\<close> lists the subscribers still subscribed.
\<close>

record BehaviorSubject =
  held :: json
  observers :: "nat list"
  subscribed :: nat
  inbox :: "nat \<Rightarrow> notification list"
  isStopped :: bool
  thrownError :: "json option"

text \<open>
  Modelled from the spec: a channel is created holding its default value, with no
  subscriber (\<^verbatim>\<open>new BehaviorSubject(v)\<close>).
\<close>

definition new_BehaviorSubject :: "json \<Rightarrow> BehaviorSubject" where
  "new_BehaviorSubject v =
     \<lparr>held = v, observers = [], subscribed = 0, inbox = (\<lambda>_. []),
      isStopped = False, thrownError = None\<rparr>"

text \<open>
  Modelled from the spec: a notification goes to all current subscribers, and to nobody
  else.
\<close>

definition deliver :: "notification \<Rightarrow> BehaviorSubject \<Rightarrow> BehaviorSubject" where
  "deliver n b =
     b\<lparr>inbox := (\<lambda>k. if k \<in> set (observers b) then inbox b k @ [n] else inbox b k)\<rparr>"

text \<open>
  Modelled from the spec: an update (\<^verbatim>\<open>next(v)\<close>) replaces the value held and notifies
  all current subscribers; a stopped subject notifies nobody.
\<close>

definition next_value :: "json \<Rightarrow> BehaviorSubject \<Rightarrow> BehaviorSubject" where
  "next_value v b =
     (if isStopped b then b\<lparr>held := v\<rparr> else deliver (Next v) (b\<lparr>held := v\<rparr>))"

text \<open>
  Modelled from the spec: the two terminal operations of the observer protocol
  (\<^verbatim>\<open>error(e)\<close>, \<^verbatim>\<open>complete()\<close>), which the spec says the channels never perform: the
  subscribers are notified and released, and the subject is stopped.
\<close>

definition error_subject :: "json \<Rightarrow> BehaviorSubject \<Rightarrow> BehaviorSubject" where
  "error_subject e b =
     (if isStopped b then b
      else (deliver (Error e) b)\<lparr>observers := [], isStopped := True, thrownError := Some e\<rparr>)"

definition complete_subject :: "BehaviorSubject \<Rightarrow> BehaviorSubject" where
  "complete_subject b =
     (if isStopped b then b
      else (deliver Complete b)\<lparr>observers := [], isStopped := True\<rparr>)"

text \<open>
  Modelled from the spec: a new subscriber receives the value held immediately upon
  subscription and is notified of each subsequent update; on a subject that has failed or
  completed it receives the terminal notification instead.
\<close>

definition subscribe :: "BehaviorSubject \<Rightarrow> BehaviorSubject" where
  "subscribe b =
     (let k = subscribed b; b1 = b\<lparr>subscribed := Suc k\<rparr> in
      case thrownError b of
        Some e \<Rightarrow> b1\<lparr>inbox := (inbox b)(k := inbox b k @ [Error e])\<rparr>
      | None \<Rightarrow>
          if isStopped b then b1\<lparr>inbox := (inbox b)(k := inbox b k @ [Complete])\<rparr>
          else b1\<lparr>observers := observers b @ [k],
                  inbox := (inbox b)(k := inbox b k @ [Next (held b)])\<rparr>)"

text \<open>
  Modelled from the spec: a subscriber that unsubscribes is no longer a current subscriber.
\<close>

definition unsubscribe :: "nat \<Rightarrow> BehaviorSubject \<Rightarrow> BehaviorSubject" where
  "unsubscribe k b = b\<lparr>observers := removeAll k (observers b)\<rparr>"

section \<open>The store and the event loop it runs in\<close>

datatype channel = Packages | DbInfo | Upgradable

text \<open>The three completion handlers that \<^verbatim>\<open>load\<close> passes to \<^verbatim>\<open>then\<close>.\<close>

datatype continuation = OnPackages | OnDbInfo | OnUpgradable

text \<open>What the store does to the outside, in the order in which it does it.\<close>

datatype effect =
    ApiCall nat request
  | ConsoleLog json
  | Published channel json
  | UnhandledRejection nat json

text \<open>
  The three subjects are the fields of \<^verbatim>\<open>SharedStoreService\<close>. The rest is the part of
  the JavaScript runtime the store depends on: the promises returned by the API, numbered in
  the order of their creation, with the handler registered on each pending one, and the
  record of the effects.
\<close>

record SharedStoreService =
  packagesSubj :: BehaviorSubject
  dbInfoSubj :: BehaviorSubject
  upgradeableSubj :: BehaviorSubject
  callbacks :: "nat \<Rightarrow> continuation option"
  next_promise :: nat
  effects :: "effect list"

definition default_packages :: json where
  "default_packages = JArr []"

definition default_dbInfo :: json where
  "default_dbInfo = JObj []"

definition default_upgradable :: json where
  "default_upgradable =
     JObj [(''mmpm'', JBool False), (''MagicMirror'', JBool False), (''packages'', JArr [])]"

definition new_SharedStoreService :: SharedStoreService where
  "new_SharedStoreService =
     \<lparr>packagesSubj = new_BehaviorSubject default_packages,
      dbInfoSubj = new_BehaviorSubject default_dbInfo,
      upgradeableSubj = new_BehaviorSubject default_upgradable,
      callbacks = (\<lambda>_. None),
      next_promise = 0,
      effects = []\<rparr>"

fun subject :: "channel \<Rightarrow> SharedStoreService \<Rightarrow> BehaviorSubject" where
  "subject Packages s = packagesSubj s"
| "subject DbInfo s = dbInfoSubj s"
| "subject Upgradable s = upgradeableSubj s"

fun on_subject ::
  "channel \<Rightarrow> (BehaviorSubject \<Rightarrow> BehaviorSubject) \<Rightarrow> SharedStoreService \<Rightarrow> SharedStoreService"
where
  "on_subject Packages f s = s\<lparr>packagesSubj := f (packagesSubj s)\<rparr>"
| "on_subject DbInfo f s = s\<lparr>dbInfoSubj := f (dbInfoSubj s)\<rparr>"
| "on_subject Upgradable f s = s\<lparr>upgradeableSubj := f (upgradeableSubj s)\<rparr>"

definition emit :: "effect \<Rightarrow> SharedStoreService \<Rightarrow> SharedStoreService" where
  "emit e s = s\<lparr>effects := effects s @ [e]\<rparr>"

definition console_log :: "json \<Rightarrow> SharedStoreService \<Rightarrow> SharedStoreService" where
  "console_log m s = emit (ConsoleLog m) s"

text \<open>\<^verbatim>\<open>subj.next(v)\<close> on the subject of a channel.\<close>

definition publish :: "channel \<Rightarrow> json \<Rightarrow> SharedStoreService \<Rightarrow> SharedStoreService" where
  "publish c v s = emit (Published c v) (on_subject c (next_value v) s)"

text \<open>
  A call of the API creates a pending promise; \<^verbatim>\<open>.then(k)\<close> registers the handler. No
  call in the source passes a rejection handler or is followed by \<^verbatim>\<open>catch\<close>.
\<close>

definition api_then :: "request \<Rightarrow> continuation \<Rightarrow> SharedStoreService \<Rightarrow> SharedStoreService" where
  "api_then r k s =
     (let p = next_promise s in
      (emit (ApiCall p r) s)\<lparr>callbacks := (callbacks s)(p \<mapsto> k), next_promise := Suc p\<rparr>)"

definition on_dbInfo :: "APIResponse \<Rightarrow> SharedStoreService \<Rightarrow> SharedStoreService" where
  "on_dbInfo response s =
     (if code response = 200 then publish DbInfo (message response) s
      else console_log (message response) s)"

definition on_upgradable :: "APIResponse \<Rightarrow> SharedStoreService \<Rightarrow> SharedStoreService" where
  "on_upgradable response s =
     (if code response = 200 then publish Upgradable (message response) s
      else console_log (message response) s)"

definition on_packages :: "APIResponse \<Rightarrow> SharedStoreService \<Rightarrow> SharedStoreService" where
  "on_packages response s =
     (let s1 = (if code response = 200
                then console_log (JStr ''Retrieved packages'')
                       (publish Packages (message response) s)
                else console_log (message response) s);
          s2 = api_then (Get ''db/info'') OnDbInfo s1
      in api_then (Get ''db/upgradable'') OnUpgradable s2)"

fun run_callback :: "continuation \<Rightarrow> APIResponse \<Rightarrow> SharedStoreService \<Rightarrow> SharedStoreService" where
  "run_callback OnPackages r s = on_packages r s"
| "run_callback OnDbInfo r s = on_dbInfo r s"
| "run_callback OnUpgradable r s = on_upgradable r s"

text \<open>
  The value a call returns to its caller: \<^verbatim>\<open>undefined\<close>, or a promise.
\<close>

datatype js_value = Undefined | Promise nat

datatype js_error = TypeError string

text \<open>
  \<^verbatim>\<open>load(): void\<close> logs, calls \<^verbatim>\<open>getPackages()\<close>, registers the handler and returns; it
  has no \<^verbatim>\<open>return\<close> statement.
\<close>

definition load :: "SharedStoreService \<Rightarrow> js_value \<times> SharedStoreService" where
  "load s =
     (Undefined,
      api_then GetPackages OnPackages
        (console_log (JStr ''Getting packages for data store'') s))"

text \<open>
  The settlement of promise \<open>p\<close>. A promise settles once: the handler is removed. On
  fulfilment the handler runs to completion. On rejection the promise derived by
  \<^verbatim>\<open>then\<close> is rejected in turn, and nothing handles it.
\<close>

definition settle :: "nat \<Rightarrow> outcome \<Rightarrow> SharedStoreService \<Rightarrow> SharedStoreService" where
  "settle p out s =
     (case callbacks s p of
        None \<Rightarrow> s
      | Some k \<Rightarrow>
          (let s1 = s\<lparr>callbacks := (callbacks s)(p := None)\<rparr> in
           case out of
             Fulfilled r \<Rightarrow> run_callback k r s1
           | Rejected e \<Rightarrow> emit (UnhandledRejection p e) s1))"

datatype event =
    Load
  | Settle nat outcome
  | Subscribe channel
  | Unsubscribe channel nat

fun step :: "event \<Rightarrow> SharedStoreService \<Rightarrow> SharedStoreService" where
  "step Load s = snd (load s)"
| "step (Settle p out) s = settle p out s"
| "step (Subscribe c) s = on_subject c subscribe s"
| "step (Unsubscribe c k) s = on_subject c (unsubscribe k) s"

definition run :: "event list \<Rightarrow> SharedStoreService \<Rightarrow> SharedStoreService" where
  "run es s = fold step es s"

section \<open>The initialization barrier\<close>

text \<open>
  A method call on the store object. \<^verbatim>\<open>load\<close> is the only method that the class
  \<^verbatim>\<open>SharedStoreService\<close> declares; its other members are the constructor parameter, the
  three subjects and the three observables, none of which is a function.
\<close>

definition call_method ::
  "string \<Rightarrow> SharedStoreService \<Rightarrow> (js_error + js_value) \<times> SharedStoreService" where
  "call_method name s =
     (if name = ''load'' then (case load s of (v, s') \<Rightarrow> (Inr v, s'))
      else (Inl (TypeError (''store.'' @ name @ '' is not a function'')), s))"

text \<open>The hook that \<^verbatim>\<open>init_shared_store(store)\<close> returns: \<^verbatim>\<open>() => store.get_packages()\<close>.\<close>

definition init_shared_store ::
  "SharedStoreService \<Rightarrow> (js_error + js_value) \<times> SharedStoreService" where
  "init_shared_store store = call_method ''get_packages'' store"

section \<open>Observations\<close>

definition chan_value :: "channel \<Rightarrow> SharedStoreService \<Rightarrow> json" where
  "chan_value c s = held (subject c s)"

definition received :: "channel \<Rightarrow> nat \<Rightarrow> SharedStoreService \<Rightarrow> notification list" where
  "received c k s = inbox (subject c s) k"

definition default_value :: "channel \<Rightarrow> json" where
  "default_value c =
     (case c of Packages \<Rightarrow> default_packages | DbInfo \<Rightarrow> default_dbInfo
      | Upgradable \<Rightarrow> default_upgradable)"

fun published :: "channel \<Rightarrow> effect list \<Rightarrow> json list" where
  "published c [] = []"
| "published c (Published c' v # es) = (if c' = c then v # published c es else published c es)"
| "published c (_ # es) = published c es"

fun api_calls :: "effect list \<Rightarrow> (nat \<times> request) list" where
  "api_calls [] = []"
| "api_calls (ApiCall p r # es) = (p, r) # api_calls es"
| "api_calls (_ # es) = api_calls es"

fun logged :: "effect list \<Rightarrow> json list" where
  "logged [] = []"
| "logged (ConsoleLog m # es) = m # logged es"
| "logged (_ # es) = logged es"

text \<open>The effects of going from state \<open>s\<close> to the later state \<open>s'\<close>.\<close>

definition since :: "SharedStoreService \<Rightarrow> SharedStoreService \<Rightarrow> effect list" where
  "since s s' = drop (length (effects s)) (effects s')"

text \<open>
  One call of \<^verbatim>\<open>load\<close> in a state whose next promise is \<open>n\<close>, followed by the settlements
  of its fetches. The packages fetch is promise \<open>n\<close>; the database-info and upgradable
  fetches, when they are made, are promises \<open>n + 1\<close> and \<open>n + 2\<close>. An outcome \<open>None\<close> is a
  fetch that never settles. The last argument tells which of the two later settlements
  arrives first.
\<close>

definition settlement :: "nat \<Rightarrow> outcome option \<Rightarrow> event list" where
  "settlement p out = (case out of None \<Rightarrow> [] | Some x \<Rightarrow> [Settle p x])"

definition single_load ::
  "nat \<Rightarrow> outcome option \<Rightarrow> outcome option \<Rightarrow> outcome option \<Rightarrow> bool \<Rightarrow> event list" where
  "single_load n pr dr ur upgradable_first =
     Load # settlement n pr @
       (if upgradable_first then settlement (n + 2) ur @ settlement (n + 1) dr
        else settlement (n + 1) dr @ settlement (n + 2) ur)"

text \<open>The store after any history of events, and after one more refresh in isolation.\<close>

definition reached :: "event list \<Rightarrow> SharedStoreService" where
  "reached es = run es new_SharedStoreService"

definition after_load ::
  "SharedStoreService \<Rightarrow> outcome option \<Rightarrow> outcome option \<Rightarrow> outcome option \<Rightarrow> bool
     \<Rightarrow> SharedStoreService" where
  "after_load s pr dr ur upgradable_first =
     run (single_load (next_promise s) pr dr ur upgradable_first) s"

definition refreshed ::
  "event list \<Rightarrow> outcome option \<Rightarrow> outcome option \<Rightarrow> outcome option \<Rightarrow> bool
     \<Rightarrow> SharedStoreService" where
  "refreshed es pr dr ur upgradable_first = after_load (reached es) pr dr ur upgradable_first"

definition refresh_effects ::
  "event list \<Rightarrow> outcome option \<Rightarrow> outcome option \<Rightarrow> outcome option \<Rightarrow> bool
     \<Rightarrow> effect list" where
  "refresh_effects es pr dr ur upgradable_first =
     since (reached es) (refreshed es pr dr ur upgradable_first)"

definition is_promise :: "js_value \<Rightarrow> bool" where
  "is_promise v = (case v of Promise _ \<Rightarrow> True | Undefined \<Rightarrow> False)"

text \<open>A settlement that carries a response with status code 200.\<close>

fun succeeds :: "event \<Rightarrow> bool" where
  "succeeds (Settle p (Fulfilled r)) = (code r = 200)"
| "succeeds _ = False"

text \<open>The channels published into, in the order of the publications.\<close>

fun publications :: "effect list \<Rightarrow> channel list" where
  "publications [] = []"
| "publications (Published c v # es) = c # publications es"
| "publications (_ # es) = publications es"

section \<open>Auxiliary notions for the proofs\<close>

text \<open>The channel that each handler of the source publishes into.\<close>

fun chan_of :: "continuation \<Rightarrow> channel" where
  "chan_of OnPackages = Packages"
| "chan_of OnDbInfo = DbInfo"
| "chan_of OnUpgradable = Upgradable"

text \<open>No handler is registered on a promise that has not been created yet.\<close>

definition fresh :: "SharedStoreService \<Rightarrow> bool" where
  "fresh s = (\<forall>p. next_promise s \<le> p \<longrightarrow> callbacks s p = None)"

text \<open>The effects of running handler \<open>k\<close> on response \<open>r\<close> when the next promise is \<open>n\<close>.\<close>

definition callback_effects :: "continuation \<Rightarrow> APIResponse \<Rightarrow> nat \<Rightarrow> effect list" where
  "callback_effects k r n =
     (if code r = 200
      then Published (chan_of k) (message r) #
             (if k = OnPackages then [ConsoleLog (JStr ''Retrieved packages'')] else [])
      else [ConsoleLog (message r)]) @
     (if k = OnPackages
      then [ApiCall n (Get ''db/info''), ApiCall (Suc n) (Get ''db/upgradable'')] else [])"

text \<open>
  The subjects of a store are in order when none is stopped, every subscriber still
  subscribed has a number below the count of subscriptions, and nobody beyond that count
  has received anything.
\<close>

definition tidy :: "BehaviorSubject \<Rightarrow> bool" where
  "tidy b \<longleftrightarrow>
     \<not> isStopped b \<and> thrownError b = None \<and>
     (\<forall>k. k \<in> set (observers b) \<longrightarrow> k < subscribed b) \<and>
     (\<forall>k. subscribed b \<le> k \<longrightarrow> inbox b k = [])"

text \<open>The effects of the handler of a later fetch, promise \<open>p\<close>, of a refresh.\<close>

definition later_effects :: "nat \<Rightarrow> continuation \<Rightarrow> nat \<Rightarrow> outcome option \<Rightarrow> effect list" where
  "later_effects p k n out =
     (case out of None \<Rightarrow> []
      | Some (Fulfilled r) \<Rightarrow> callback_effects k r n
      | Some (Rejected e) \<Rightarrow> [UnhandledRejection p e])"

fun is_next :: "notification \<Rightarrow> bool" where
  "is_next (Next v) = True"
| "is_next _ = False"

section \<open>How each operation changes what can be observed\<close>

lemma subject_update [simp]:
  "subject c (s\<lparr>callbacks := f\<rparr>) = subject c s"
  "subject c (s\<lparr>next_promise := n\<rparr>) = subject c s"
  "subject c (s\<lparr>effects := es\<rparr>) = subject c s"
  by (cases c; simp)+

lemma emit_obs [simp]:
  "effects (emit e s) = effects s @ [e]"
  "callbacks (emit e s) = callbacks s"
  "next_promise (emit e s) = next_promise s"
  "subject c (emit e s) = subject c s"
  by (cases c; simp add: emit_def)+

lemma on_subject_obs [simp]:
  "effects (on_subject c f s) = effects s"
  "callbacks (on_subject c f s) = callbacks s"
  "next_promise (on_subject c f s) = next_promise s"
  "subject c' (on_subject c f s) = (if c' = c then f (subject c s) else subject c' s)"
  by (cases c; cases c'; simp)+

lemma console_log_obs [simp]:
  "effects (console_log m s) = effects s @ [ConsoleLog m]"
  "callbacks (console_log m s) = callbacks s"
  "next_promise (console_log m s) = next_promise s"
  "subject c (console_log m s) = subject c s"
  by (simp_all add: console_log_def)

lemma publish_obs [simp]:
  "effects (publish c v s) = effects s @ [Published c v]"
  "callbacks (publish c v s) = callbacks s"
  "next_promise (publish c v s) = next_promise s"
  "subject c' (publish c v s) = (if c' = c then next_value v (subject c s) else subject c' s)"
  by (simp_all add: publish_def)

lemma api_then_obs [simp]:
  "effects (api_then r k s) = effects s @ [ApiCall (next_promise s) r]"
  "callbacks (api_then r k s) = (callbacks s)(next_promise s \<mapsto> k)"
  "next_promise (api_then r k s) = Suc (next_promise s)"
  "subject c (api_then r k s) = subject c s"
  by (simp_all add: api_then_def Let_def)

lemma load_obs [simp]:
  "effects (snd (load s)) =
     effects s @ [ConsoleLog (JStr ''Getting packages for data store''),
                  ApiCall (next_promise s) GetPackages]"
  "callbacks (snd (load s)) = (callbacks s)(next_promise s \<mapsto> OnPackages)"
  "next_promise (snd (load s)) = Suc (next_promise s)"
  "subject c (snd (load s)) = subject c s"
  by (simp_all add: load_def)

lemma run_callback_obs:
  "effects (run_callback k r s) = effects s @ callback_effects k r (next_promise s)"
  "callbacks (run_callback k r s) =
     (if k = OnPackages
      then (callbacks s)(next_promise s \<mapsto> OnDbInfo, Suc (next_promise s) \<mapsto> OnUpgradable)
      else callbacks s)"
  "next_promise (run_callback k r s) =
     (if k = OnPackages then Suc (Suc (next_promise s)) else next_promise s)"
  "subject c (run_callback k r s) =
     (if c = chan_of k \<and> code r = 200 then next_value (message r) (subject c s)
      else subject c s)"
  by (cases k; simp add: callback_effects_def on_packages_def on_dbInfo_def
        on_upgradable_def Let_def)+

lemma settle_obs [simp]:
  "effects (settle p out s) = effects s @
     (case callbacks s p of None \<Rightarrow> []
      | Some k \<Rightarrow> (case out of Fulfilled r \<Rightarrow> callback_effects k r (next_promise s)
                   | Rejected e \<Rightarrow> [UnhandledRejection p e]))"
  "callbacks (settle p out s) =
     (case callbacks s p of None \<Rightarrow> callbacks s
      | Some k \<Rightarrow>
         (case out of
            Fulfilled r \<Rightarrow>
              if k = OnPackages
              then (callbacks s)(p := None, next_promise s \<mapsto> OnDbInfo,
                                 Suc (next_promise s) \<mapsto> OnUpgradable)
              else (callbacks s)(p := None)
          | Rejected e \<Rightarrow> (callbacks s)(p := None)))"
  "next_promise (settle p out s) =
     (case callbacks s p of None \<Rightarrow> next_promise s
      | Some k \<Rightarrow>
         (case out of
            Fulfilled r \<Rightarrow> if k = OnPackages then Suc (Suc (next_promise s)) else next_promise s
          | Rejected e \<Rightarrow> next_promise s))"
  "subject c (settle p out s) =
     (case callbacks s p of None \<Rightarrow> subject c s
      | Some k \<Rightarrow>
         (case out of
            Fulfilled r \<Rightarrow>
              if c = chan_of k \<and> code r = 200 then next_value (message r) (subject c s)
              else subject c s
          | Rejected e \<Rightarrow> subject c s))"
  by (simp_all add: settle_def Let_def run_callback_obs del: run_callback.simps
      split: option.splits outcome.splits)

declare subject.simps [simp del] on_subject.simps [simp del]

lemma held_next_value [simp]: "held (next_value v b) = v"
  by (simp add: next_value_def deliver_def)

lemma held_subscribe [simp]: "held (subscribe b) = held b"
  by (simp add: subscribe_def Let_def split: option.splits)

lemma held_unsubscribe [simp]: "held (unsubscribe k b) = held b"
  by (simp add: unsubscribe_def)

lemma run_Nil [simp]: "run [] s = s"
  and run_Cons [simp]: "run (e # es) s = run es (step e s)"
  and run_append [simp]: "run (es @ es') s = run es' (run es s)"
  by (simp_all add: run_def)

lemma run_snoc: "run (es @ [e]) s = step e (run es s)"
  by simp

subsection \<open>Promises are numbered as they are created\<close>

lemma fresh_new: "fresh new_SharedStoreService"
  by (simp add: fresh_def new_SharedStoreService_def)

lemma fresh_step: "fresh s \<Longrightarrow> fresh (step e s)"
  by (cases e) (auto simp: fresh_def split: option.splits outcome.splits)

lemma fresh_run: "fresh s \<Longrightarrow> fresh (run es s)"
  by (induction es arbitrary: s) (simp_all add: fresh_step)

lemma fresh_reached: "fresh (reached es)"
  unfolding reached_def by (rule fresh_run [OF fresh_new])

lemma fresh_next: "fresh s \<Longrightarrow> callbacks s (next_promise s) = None"
  and fresh_next1: "fresh s \<Longrightarrow> callbacks s (Suc (next_promise s)) = None"
  and fresh_next2: "fresh s \<Longrightarrow> callbacks s (Suc (Suc (next_promise s))) = None"
  by (simp_all add: fresh_def)

subsection \<open>Settlements that publish nothing\<close>

lemma step_unsuccessful: "\<not> succeeds e \<Longrightarrow> chan_value c (step e s) = chan_value c s"
proof (cases e)
  case (Settle p out)
  assume "\<not> succeeds e"
  with Settle show ?thesis
    by (cases out) (simp_all add: chan_value_def split: option.splits)
qed (simp_all add: chan_value_def)

lemma run_unsuccessful:
  "\<forall>e\<in>set es. \<not> succeeds e \<Longrightarrow> chan_value c (run es s) = chan_value c s"
  by (induction es arbitrary: s) (simp_all add: step_unsuccessful)

lemma chan_value_new:
  "chan_value Packages new_SharedStoreService = JArr []"
  "chan_value DbInfo new_SharedStoreService = JObj []"
  "chan_value Upgradable new_SharedStoreService =
     JObj [(''mmpm'', JBool False), (''MagicMirror'', JBool False), (''packages'', JArr [])]"
  by (simp_all add: chan_value_def subject.simps new_SharedStoreService_def
      new_BehaviorSubject_def default_packages_def default_dbInfo_def default_upgradable_def)

subsection \<open>One refresh in isolation\<close>

lemma published_append [simp]: "published c (xs @ ys) = published c xs @ published c ys"
  by (induction c xs rule: published.induct) simp_all

lemma api_calls_append [simp]: "api_calls (xs @ ys) = api_calls xs @ api_calls ys"
  by (induction xs rule: api_calls.induct) simp_all

lemma logged_append [simp]: "logged (xs @ ys) = logged xs @ logged ys"
  by (induction xs rule: logged.induct) simp_all

lemma publications_append [simp]: "publications (xs @ ys) = publications xs @ publications ys"
  by (induction xs rule: publications.induct) simp_all

lemmas load_unfold = after_load_def single_load_def settlement_def since_def
  callback_effects_def

lemma after_load_subject_Packages:
  assumes "fresh s"
  shows "subject Packages (after_load s pr dr ur b) =
    (case pr of
       Some (Fulfilled r) \<Rightarrow>
         if code r = 200 then next_value (message r) (subject Packages s)
         else subject Packages s
     | _ \<Rightarrow> subject Packages s)"
proof -
  note f = fresh_next [OF assms] fresh_next1 [OF assms] fresh_next2 [OF assms]
  show ?thesis
    by (cases pr; cases dr; cases ur; cases b)
       (simp_all add: load_unfold f split: outcome.splits)
qed

lemma after_load_subject_DbInfo:
  assumes "fresh s"
  shows "subject DbInfo (after_load s pr dr ur b) =
    (case pr of
       Some (Fulfilled rp) \<Rightarrow>
         (case dr of
            Some (Fulfilled r) \<Rightarrow>
              if code r = 200 then next_value (message r) (subject DbInfo s)
              else subject DbInfo s
          | _ \<Rightarrow> subject DbInfo s)
     | _ \<Rightarrow> subject DbInfo s)"
proof -
  note f = fresh_next [OF assms] fresh_next1 [OF assms] fresh_next2 [OF assms]
  show ?thesis
    by (cases pr; cases dr; cases ur; cases b)
       (simp_all add: load_unfold f split: outcome.splits)
qed

lemma after_load_subject_Upgradable:
  assumes "fresh s"
  shows "subject Upgradable (after_load s pr dr ur b) =
    (case pr of
       Some (Fulfilled rp) \<Rightarrow>
         (case ur of
            Some (Fulfilled r) \<Rightarrow>
              if code r = 200 then next_value (message r) (subject Upgradable s)
              else subject Upgradable s
          | _ \<Rightarrow> subject Upgradable s)
     | _ \<Rightarrow> subject Upgradable s)"
proof -
  note f = fresh_next [OF assms] fresh_next1 [OF assms] fresh_next2 [OF assms]
  show ?thesis
    by (cases pr; cases dr; cases ur; cases b)
       (simp_all add: load_unfold f split: outcome.splits)
qed

lemma after_load_effects:
  assumes "fresh s"
  shows "since s (after_load s pr dr ur b) =
    [ConsoleLog (JStr ''Getting packages for data store''), ApiCall (next_promise s) GetPackages] @
    (case pr of
       None \<Rightarrow> []
     | Some (Rejected e) \<Rightarrow> [UnhandledRejection (next_promise s) e]
     | Some (Fulfilled r) \<Rightarrow>
         callback_effects OnPackages r (Suc (next_promise s)) @
         (if b
          then later_effects (next_promise s + 2) OnUpgradable (next_promise s + 3) ur @
               later_effects (next_promise s + 1) OnDbInfo (next_promise s + 3) dr
          else later_effects (next_promise s + 1) OnDbInfo (next_promise s + 3) dr @
               later_effects (next_promise s + 2) OnUpgradable (next_promise s + 3) ur))"
  (is "?lhs = ?rhs")
proof -
  note f = fresh_next [OF assms] fresh_next1 [OF assms] fresh_next2 [OF assms]
  show ?thesis
    by (cases pr; cases dr; cases ur; cases b)
       (simp_all add: after_load_def single_load_def settlement_def since_def
          later_effects_def numeral_3_eq_3 f split: outcome.splits)
qed

lemma callback_effects_proj [simp]:
  "published c (callback_effects k r n) =
     (if c = chan_of k \<and> code r = 200 then [message r] else [])"
  "publications (callback_effects k r n) = (if code r = 200 then [chan_of k] else [])"
  "api_calls (callback_effects k r n) =
     (if k = OnPackages then [(n, Get ''db/info''), (Suc n, Get ''db/upgradable'')] else [])"
  "logged (callback_effects k r n) =
     (if code r = 200 then (if k = OnPackages then [JStr ''Retrieved packages''] else [])
      else [message r])"
  by (simp_all add: callback_effects_def)

lemma later_effects_proj [simp]:
  "published c (later_effects p k n out) =
     (case out of Some (Fulfilled r) \<Rightarrow> if c = chan_of k \<and> code r = 200 then [message r] else []
      | _ \<Rightarrow> [])"
  "publications (later_effects p k n out) =
     (case out of Some (Fulfilled r) \<Rightarrow> if code r = 200 then [chan_of k] else [] | _ \<Rightarrow> [])"
  "k \<noteq> OnPackages \<Longrightarrow> api_calls (later_effects p k n out) = []"
  "k \<noteq> OnPackages \<Longrightarrow> logged (later_effects p k n out) =
     (case out of Some (Fulfilled r) \<Rightarrow> if code r = 200 then [] else [message r] | _ \<Rightarrow> [])"
  by (simp_all add: later_effects_def split: option.splits outcome.splits)

lemma refreshed_subject:
  "subject Packages (refreshed es pr dr ur b) =
    (case pr of
       Some (Fulfilled r) \<Rightarrow>
         if code r = 200 then next_value (message r) (subject Packages (reached es))
         else subject Packages (reached es)
     | _ \<Rightarrow> subject Packages (reached es))"
  "subject DbInfo (refreshed es pr dr ur b) =
    (case pr of
       Some (Fulfilled rp) \<Rightarrow>
         (case dr of
            Some (Fulfilled r) \<Rightarrow>
              if code r = 200 then next_value (message r) (subject DbInfo (reached es))
              else subject DbInfo (reached es)
          | _ \<Rightarrow> subject DbInfo (reached es))
     | _ \<Rightarrow> subject DbInfo (reached es))"
  "subject Upgradable (refreshed es pr dr ur b) =
    (case pr of
       Some (Fulfilled rp) \<Rightarrow>
         (case ur of
            Some (Fulfilled r) \<Rightarrow>
              if code r = 200 then next_value (message r) (subject Upgradable (reached es))
              else subject Upgradable (reached es)
          | _ \<Rightarrow> subject Upgradable (reached es))
     | _ \<Rightarrow> subject Upgradable (reached es))"
  unfolding refreshed_def
  by (rule after_load_subject_Packages after_load_subject_DbInfo
        after_load_subject_Upgradable, rule fresh_reached)+

lemma refresh_effects_eq:
  "refresh_effects es pr dr ur b =
    [ConsoleLog (JStr ''Getting packages for data store''),
     ApiCall (next_promise (reached es)) GetPackages] @
    (case pr of
       None \<Rightarrow> []
     | Some (Rejected e) \<Rightarrow> [UnhandledRejection (next_promise (reached es)) e]
     | Some (Fulfilled r) \<Rightarrow>
         callback_effects OnPackages r (Suc (next_promise (reached es))) @
         (if b
          then later_effects (next_promise (reached es) + 2) OnUpgradable
                 (next_promise (reached es) + 3) ur @
               later_effects (next_promise (reached es) + 1) OnDbInfo
                 (next_promise (reached es) + 3) dr
          else later_effects (next_promise (reached es) + 1) OnDbInfo
                 (next_promise (reached es) + 3) dr @
               later_effects (next_promise (reached es) + 2) OnUpgradable
                 (next_promise (reached es) + 3) ur))"
  unfolding refresh_effects_def refreshed_def
  by (rule after_load_effects [OF fresh_reached])

lemma refresh_published:
  "published Packages (refresh_effects es pr dr ur b) =
     (case pr of Some (Fulfilled r) \<Rightarrow> if code r = 200 then [message r] else [] | _ \<Rightarrow> [])"
  "published DbInfo (refresh_effects es pr dr ur b) =
     (case pr of
        Some (Fulfilled rp) \<Rightarrow>
          (case dr of Some (Fulfilled r) \<Rightarrow> if code r = 200 then [message r] else []
           | _ \<Rightarrow> [])
      | _ \<Rightarrow> [])"
  "published Upgradable (refresh_effects es pr dr ur b) =
     (case pr of
        Some (Fulfilled rp) \<Rightarrow>
          (case ur of Some (Fulfilled r) \<Rightarrow> if code r = 200 then [message r] else []
           | _ \<Rightarrow> [])
      | _ \<Rightarrow> [])"
  by (simp_all add: refresh_effects_eq split: option.splits outcome.splits)

lemma refresh_api_calls:
  "api_calls (refresh_effects es pr dr ur b) =
     (next_promise (reached es), GetPackages) #
     (case pr of
        Some (Fulfilled r) \<Rightarrow>
          [(next_promise (reached es) + 1, Get ''db/info''),
           (next_promise (reached es) + 2, Get ''db/upgradable'')]
      | _ \<Rightarrow> [])"
  by (simp add: refresh_effects_eq split: option.splits outcome.splits)

lemma refresh_logged:
  "logged (refresh_effects es pr dr ur b) =
     JStr ''Getting packages for data store'' #
     (case pr of
        Some (Fulfilled rp) \<Rightarrow>
          (if code rp = 200 then [JStr ''Retrieved packages''] else [message rp]) @
          (if b
           then (case ur of Some (Fulfilled r) \<Rightarrow> if code r = 200 then [] else [message r]
                 | _ \<Rightarrow> []) @
                (case dr of Some (Fulfilled r) \<Rightarrow> if code r = 200 then [] else [message r]
                 | _ \<Rightarrow> [])
           else (case dr of Some (Fulfilled r) \<Rightarrow> if code r = 200 then [] else [message r]
                 | _ \<Rightarrow> []) @
                (case ur of Some (Fulfilled r) \<Rightarrow> if code r = 200 then [] else [message r]
                 | _ \<Rightarrow> []))
      | _ \<Rightarrow> [])"
  by (simp add: refresh_effects_eq split: option.splits outcome.splits)

lemma refresh_publications:
  "publications (refresh_effects es pr dr ur b) =
     (case pr of
        Some (Fulfilled rp) \<Rightarrow>
          (if code rp = 200 then [Packages] else []) @
          (if b
           then (case ur of Some (Fulfilled r) \<Rightarrow> if code r = 200 then [Upgradable] else []
                 | _ \<Rightarrow> []) @
                (case dr of Some (Fulfilled r) \<Rightarrow> if code r = 200 then [DbInfo] else []
                 | _ \<Rightarrow> [])
           else (case dr of Some (Fulfilled r) \<Rightarrow> if code r = 200 then [DbInfo] else []
                 | _ \<Rightarrow> []) @
                (case ur of Some (Fulfilled r) \<Rightarrow> if code r = 200 then [Upgradable] else []
                 | _ \<Rightarrow> []))
      | _ \<Rightarrow> [])"
  by (simp add: refresh_effects_eq split: option.splits outcome.splits)


lemma chan_value_refreshed:
  "chan_value Packages (refreshed es pr dr ur b) =
    (case pr of
       Some (Fulfilled r) \<Rightarrow> if code r = 200 then message r else chan_value Packages (reached es)
     | _ \<Rightarrow> chan_value Packages (reached es))"
  "chan_value DbInfo (refreshed es pr dr ur b) =
    (case pr of
       Some (Fulfilled rp) \<Rightarrow>
         (case dr of
            Some (Fulfilled r) \<Rightarrow>
              if code r = 200 then message r else chan_value DbInfo (reached es)
          | _ \<Rightarrow> chan_value DbInfo (reached es))
     | _ \<Rightarrow> chan_value DbInfo (reached es))"
  "chan_value Upgradable (refreshed es pr dr ur b) =
    (case pr of
       Some (Fulfilled rp) \<Rightarrow>
         (case ur of
            Some (Fulfilled r) \<Rightarrow>
              if code r = 200 then message r else chan_value Upgradable (reached es)
          | _ \<Rightarrow> chan_value Upgradable (reached es))
     | _ \<Rightarrow> chan_value Upgradable (reached es))"
  by (simp_all add: chan_value_def refreshed_subject split: option.splits outcome.splits)

lemma reached_Nil [simp]: "reached [] = new_SharedStoreService"
  by (simp add: reached_def)

lemma next_promise_new [simp]: "next_promise new_SharedStoreService = 0"
  by (simp add: new_SharedStoreService_def)

lemma callbacks_refreshed_pending:
  "callbacks (refreshed es (Some (Fulfilled rp)) None None b) (Suc (next_promise (reached es))) =
     Some OnDbInfo"
  "callbacks (refreshed es (Some (Fulfilled rp)) None None b)
     (Suc (Suc (next_promise (reached es)))) = Some OnUpgradable"
  "callbacks (refreshed es (Some (Fulfilled rp)) (Some out) None b)
     (Suc (Suc (next_promise (reached es)))) = Some OnUpgradable"
  "callbacks (refreshed es (Some (Fulfilled rp)) None (Some out) b)
     (Suc (next_promise (reached es))) = Some OnDbInfo"
  using fresh_next [OF fresh_reached, of es]
  by (cases b; cases out;
      simp add: refreshed_def after_load_def single_load_def settlement_def)+

subsection \<open>Subjects stay in order\<close>

lemma tidy_new: "tidy (new_BehaviorSubject v)"
  by (simp add: tidy_def new_BehaviorSubject_def)

lemma tidy_next_value: "tidy b \<Longrightarrow> tidy (next_value v b)"
  by (auto simp: tidy_def next_value_def deliver_def)

lemma terminal_operations_stop:
  "\<not> isStopped b \<Longrightarrow> isStopped (complete_subject b)"
  "\<not> isStopped b \<Longrightarrow> isStopped (error_subject e b) \<and> thrownError (error_subject e b) = Some e"
  "\<not> isStopped b \<Longrightarrow> k \<in> set (observers b) \<Longrightarrow>
     inbox (complete_subject b) k = inbox b k @ [Complete]"
  "\<not> isStopped b \<Longrightarrow> k \<in> set (observers b) \<Longrightarrow>
     inbox (error_subject e b) k = inbox b k @ [Error e]"
  by (simp_all add: complete_subject_def error_subject_def deliver_def)

lemma tidy_subscribe: "tidy b \<Longrightarrow> tidy (subscribe b)"
  by (auto simp: tidy_def subscribe_def Let_def less_Suc_eq)

lemma tidy_unsubscribe: "tidy b \<Longrightarrow> tidy (unsubscribe k b)"
  by (auto simp: tidy_def unsubscribe_def)

lemma tidy_step:
  assumes "\<And>c. tidy (subject c s)"
  shows "tidy (subject c (step e s))"
proof (cases e)
  case Load
  then show ?thesis by (simp add: assms)
next
  case (Settle p out)
  then show ?thesis
    by (simp add: assms tidy_next_value split: option.splits outcome.splits)
next
  case (Subscribe c')
  then show ?thesis by (simp add: assms tidy_subscribe)
next
  case (Unsubscribe c' k)
  then show ?thesis by (simp add: assms tidy_unsubscribe)
qed

lemma tidy_run: "(\<And>c. tidy (subject c s)) \<Longrightarrow> tidy (subject c (run es s))"
proof (induction es arbitrary: s c)
  case Nil
  then show ?case by simp
next
  case (Cons e es)
  show ?case
    unfolding run_Cons
    by (rule Cons.IH) (rule tidy_step, rule Cons.prems)
qed

lemma tidy_reached: "tidy (subject c (reached es))"
  unfolding reached_def
  by (rule tidy_run) (case_tac c; simp add: subject.simps new_SharedStoreService_def tidy_new)

subsection \<open>Only values are delivered\<close>

lemma only_next_next_value:
  "(\<And>k n. n \<in> set (inbox b k) \<Longrightarrow> is_next n) \<Longrightarrow> n \<in> set (inbox (next_value v b) k)
     \<Longrightarrow> is_next n"
  by (auto simp: next_value_def deliver_def split: if_splits)

lemma only_next_subscribe:
  "tidy b \<Longrightarrow> (\<And>k n. n \<in> set (inbox b k) \<Longrightarrow> is_next n) \<Longrightarrow> n \<in> set (inbox (subscribe b) k)
     \<Longrightarrow> is_next n"
  by (auto simp: tidy_def subscribe_def Let_def split: if_splits)

lemma inbox_unsubscribe [simp]: "inbox (unsubscribe j b) k = inbox b k"
  by (simp add: unsubscribe_def)

lemma only_next_step:
  assumes t: "\<And>c. tidy (subject c s)"
    and o: "\<And>c k n. n \<in> set (inbox (subject c s) k) \<Longrightarrow> is_next n"
    and n: "n \<in> set (inbox (subject c (step e s)) k)"
  shows "is_next n"
proof (cases e)
  case Load
  with n o show ?thesis by simp
next
  case (Settle p out)
  have "is_next m" if "m \<in> set (inbox (next_value v (subject c s)) k)" for m v
    using o [of _ c] that by (rule only_next_next_value)
  with Settle n o show ?thesis
    by (auto split: option.splits outcome.splits if_splits)
next
  case (Subscribe c')
  show ?thesis
  proof (cases "c = c'")
    case True
    with Subscribe n have "n \<in> set (inbox (subscribe (subject c s)) k)" by simp
    with t [of c] o [of _ c] show ?thesis by (rule only_next_subscribe)
  next
    case False
    with Subscribe n o show ?thesis by simp
  qed
next
  case (Unsubscribe c' j)
  with n o show ?thesis
    by (auto split: if_splits)
qed

lemma only_next_run:
  "(\<And>c. tidy (subject c s)) \<Longrightarrow>
   (\<And>c k n. n \<in> set (inbox (subject c s) k) \<Longrightarrow> is_next n) \<Longrightarrow>
   n \<in> set (inbox (subject c (run es s)) k) \<Longrightarrow> is_next n"
proof (induction es arbitrary: s)
  case Nil
  then show ?case by simp
next
  case (Cons e es)
  show ?case
  proof (rule Cons.IH)
    show "tidy (subject c (step e s))" for c
      by (rule tidy_step) (rule Cons.prems(1))
    show "is_next n" if "n \<in> set (inbox (subject c (step e s)) k)" for c k n
      using Cons.prems(1) Cons.prems(2) that by (rule only_next_step)
    show "n \<in> set (inbox (subject c (run es (step e s))) k)"
      using Cons.prems(3) by simp
  qed
qed

lemma only_next_reached: "n \<in> set (received c k (reached es)) \<Longrightarrow> is_next n"
  unfolding reached_def received_def
proof (erule only_next_run [rotated 2])
  show "tidy (subject c new_SharedStoreService)" for c
    using tidy_reached [of c "[]"] by simp
  show "is_next n" if "n \<in> set (inbox (subject c new_SharedStoreService) k)" for c k n
    using that
    by (cases c) (simp_all add: subject.simps new_SharedStoreService_def new_BehaviorSubject_def)
qed

subsection \<open>Effects accumulate\<close>

lemma effects_step: "effects (step e s) = effects s @ since s (step e s)"
  by (cases e) (simp_all add: since_def)

lemma since_eqI: "effects t = effects s @ xs \<Longrightarrow> since s t = xs"
  by (simp add: since_def)

lemma effects_run_step:
  assumes "effects (run es (step e s)) = effects (step e s) @ since (step e s) (run es (step e s))"
  shows "effects (run es (step e s)) =
           effects s @ since s (step e s) @ since (step e s) (run es (step e s))"
  using assms effects_step [of e s] by simp

lemma effects_run: "effects (run es s) = effects s @ since s (run es s)"
proof (induction es arbitrary: s)
  case Nil
  then show ?case by (simp add: since_def)
next
  case (Cons e es)
  have a: "effects (run es (step e s)) =
      effects s @ since s (step e s) @ since (step e s) (run es (step e s))"
    by (rule effects_run_step) (rule Cons.IH)
  then have "since s (run es (step e s)) =
      since s (step e s) @ since (step e s) (run es (step e s))"
    by (rule since_eqI)
  with a show ?case by simp
qed

lemma since_run_step:
  "since s (run es (step e s)) = since s (step e s) @ since (step e s) (run es (step e s))"
  by (rule since_eqI, rule effects_run_step, rule effects_run)

lemma since_self [simp]: "since s s = []"
  by (simp add: since_def)

subsection \<open>What a subscriber receives\<close>

lemma next_value_subscriber:
  "tidy b \<Longrightarrow> k \<in> set (observers b) \<Longrightarrow> inbox (next_value v b) k = inbox b k @ [Next v]"
  "tidy b \<Longrightarrow> k \<notin> set (observers b) \<Longrightarrow> inbox (next_value v b) k = inbox b k"
  "observers (next_value v b) = observers b"
  by (simp_all add: tidy_def next_value_def deliver_def)

lemma subscribe_new:
  assumes "tidy b"
  shows "inbox (subscribe b) (subscribed b) = [Next (held b)]"
    and "subscribed b \<in> set (observers (subscribe b))"
  using assms by (simp_all add: tidy_def subscribe_def Let_def)

lemma subscribe_old:
  assumes "tidy b" and "k \<in> set (observers b)"
  shows "inbox (subscribe b) k = inbox b k" and "k \<in> set (observers (subscribe b))"
proof -
  from assms have "k \<noteq> subscribed b" by (auto simp: tidy_def)
  with assms show "inbox (subscribe b) k = inbox b k" and "k \<in> set (observers (subscribe b))"
    by (simp_all add: tidy_def subscribe_def Let_def)
qed

lemma step_subscriber:
  assumes t: "tidy (subject c s)"
    and k: "k \<in> set (observers (subject c s))"
    and e: "e \<noteq> Unsubscribe c k"
  shows "k \<in> set (observers (subject c (step e s))) \<and>
         inbox (subject c (step e s)) k =
           inbox (subject c s) k @ map Next (published c (since s (step e s)))"
proof (cases e)
  case Load
  with k show ?thesis by (simp add: since_def)
next
  case (Settle p out)
  with t k show ?thesis
    by (auto simp: since_def next_value_subscriber split: option.splits outcome.splits)
next
  case (Subscribe c')
  with t k show ?thesis
    by (auto simp: since_def subscribe_old)
next
  case (Unsubscribe c' j)
  with k e show ?thesis
    by (auto simp: since_def unsubscribe_def)
qed

lemma run_subscriber:
  assumes "\<And>c. tidy (subject c s)"
    and "k \<in> set (observers (subject c s))"
    and "Unsubscribe c k \<notin> set es"
  shows "inbox (subject c (run es s)) k =
           inbox (subject c s) k @ map Next (published c (since s (run es s)))"
  using assms
proof (induction es arbitrary: s)
  case Nil
  then show ?case by simp
next
  case (Cons e es)
  from Cons.prems have e: "e \<noteq> Unsubscribe c k" and es: "Unsubscribe c k \<notin> set es"
    by auto
  have st: "k \<in> set (observers (subject c (step e s))) \<and>
         inbox (subject c (step e s)) k =
           inbox (subject c s) k @ map Next (published c (since s (step e s)))"
    using Cons.prems(1) [of c] Cons.prems(2) e by (rule step_subscriber)
  have t': "tidy (subject c' (step e s))" for c'
    by (rule tidy_step) (rule Cons.prems(1))
  have "inbox (subject c (run es (step e s))) k =
      inbox (subject c (step e s)) k @
        map Next (published c (since (step e s) (run es (step e s))))"
    using t' st es by (intro Cons.IH) simp_all
  with st show ?case
    by (simp add: since_run_step)
qed

subsection \<open>The value held is the last one published\<close>

lemma step_chan_value:
  "chan_value c (step e s) = last (chan_value c s # published c (since s (step e s)))"
  by (cases e) (simp_all add: chan_value_def since_def split: option.splits outcome.splits)

lemma last_Cons_append: "last (x # xs @ ys) = last (last (x # xs) # ys)"
  by (cases ys rule: rev_cases) simp_all

lemma run_chan_value:
  "chan_value c (run es s) = last (chan_value c s # published c (since s (run es s)))"
proof (induction es arbitrary: s)
  case Nil
  then show ?case by simp
next
  case (Cons e es)
  have "chan_value c (run (e # es) s) =
      last (chan_value c (step e s) # published c (since (step e s) (run es (step e s))))"
    using Cons.IH [of "step e s"] by simp
  also have "\<dots> = last (chan_value c s #
      published c (since s (step e s)) @ published c (since (step e s) (run es (step e s))))"
    unfolding step_chan_value [of c e s] by (rule last_Cons_append [symmetric])
  finally show ?case by (simp add: since_run_step)
qed

lemma chan_value_default: "chan_value c new_SharedStoreService = default_value c"
  by (cases c) (simp_all add: chan_value_new default_value_def default_packages_def
      default_dbInfo_def default_upgradable_def)

lemma effects_new [simp]: "effects new_SharedStoreService = []"
  by (simp add: new_SharedStoreService_def)

lemma reached_chan_value:
  "chan_value c (reached es) = last (default_value c # published c (effects (reached es)))"
  using run_chan_value [of c es new_SharedStoreService]
  by (simp add: reached_def chan_value_default since_def)

lemma reached_snoc: "reached (es @ [e]) = step e (reached es)"
  and reached_append: "reached (es @ es') = run es' (reached es)"
  by (simp_all add: reached_def)

lemma subject_new:
  "subject c new_SharedStoreService = new_BehaviorSubject (default_value c)"
  by (cases c) (simp_all add: subject.simps new_SharedStoreService_def default_value_def)

lemma callbacks_new [simp]: "callbacks new_SharedStoreService = (\<lambda>_. None)"
  by (simp add: new_SharedStoreService_def)

lemma subscribed_next_value [simp]: "subscribed (next_value v b) = subscribed b"
  by (simp add: next_value_def deliver_def)

section \<open>The store at construction\<close>

text \<open>
  Claim C7. At construction, and for as long as no fetch has been answered with status
  code 200, the packages channel holds the empty sequence, the database-info channel holds
  the empty record, and the upgradable channel holds the record whose fields \<^verbatim>\<open>mmpm\<close> and
  \<^verbatim>\<open>MagicMirror\<close> are false and whose field \<^verbatim>\<open>packages\<close> is the empty sequence. The
  empty list of events gives the store as constructed.
\<close>

theorem defaults_until_first_success:
  assumes "\<forall>e\<in>set es. \<not> succeeds e"
  shows "chan_value Packages (run es new_SharedStoreService) = JArr [] \<and>
         chan_value DbInfo (run es new_SharedStoreService) = JObj [] \<and>
         chan_value Upgradable (run es new_SharedStoreService) =
           JObj [(''mmpm'', JBool False), (''MagicMirror'', JBool False),
                 (''packages'', JArr [])]"
  using assms by (simp add: run_unsuccessful chan_value_new)

theorem defaults_until_first_success_witness:
  "\<not> list_ex succeeds
       [Load, Settle 0 (Fulfilled \<lparr>code = 500, message = JStr ''server error''\<rparr>),
        Settle 1 (Rejected (JStr ''timeout''))] \<and>
   chan_value Packages
     (run [Load, Settle 0 (Fulfilled \<lparr>code = 500, message = JStr ''server error''\<rparr>),
           Settle 1 (Rejected (JStr ''timeout''))] new_SharedStoreService) = JArr [] \<and>
   chan_value DbInfo
     (run [Load, Settle 0 (Fulfilled \<lparr>code = 500, message = JStr ''server error''\<rparr>),
           Settle 1 (Rejected (JStr ''timeout''))] new_SharedStoreService) = JObj [] \<and>
   chan_value Upgradable
     (run [Load, Settle 0 (Fulfilled \<lparr>code = 500, message = JStr ''server error''\<rparr>),
           Settle 1 (Rejected (JStr ''timeout''))] new_SharedStoreService) =
     JObj [(''mmpm'', JBool False), (''MagicMirror'', JBool False), (''packages'', JArr [])]"
  using defaults_until_first_success
    [of "[Load, Settle 0 (Fulfilled \<lparr>code = 500, message = JStr ''server error''\<rparr>),
          Settle 1 (Rejected (JStr ''timeout''))]"]
  by simp

section \<open>What \<^verbatim>\<open>load\<close> returns\<close>

text \<open>
  Claim C1, as stated, fails: \<^verbatim>\<open>load\<close> is declared \<^verbatim>\<open>void\<close> and returns
  \<^verbatim>\<open>undefined\<close>, not an asynchronous operation. On the store as constructed it returns
  when a single fetch, the packages fetch, has been initiated and none has settled.
\<close>

theorem load_returns_no_promise:
  "\<not> is_promise (fst (load new_SharedStoreService)) \<and>
   api_calls (effects (snd (load new_SharedStoreService))) = [(0, GetPackages)]"
  by (simp add: is_promise_def load_def new_SharedStoreService_def)

text \<open>
  Claim C1, amended. In every state, \<^verbatim>\<open>load\<close> returns \<^verbatim>\<open>undefined\<close> at once: it has
  logged its message and initiated the packages fetch, and has done nothing else; it has
  registered the handler of that fetch and has changed none of the three subjects. The
  refresh goes on in the handlers after \<^verbatim>\<open>load\<close> has returned; no outcome of a fetch
  reaches the caller of \<^verbatim>\<open>load\<close>.
\<close>

theorem load_returns_at_once:
  "fst (load s) = Undefined \<and>
   api_calls (since s (snd (load s))) = [(next_promise s, GetPackages)] \<and>
   callbacks (snd (load s)) (next_promise s) = Some OnPackages \<and>
   (\<forall>c. subject c (snd (load s)) = subject c s) \<and>
   logged (since s (snd (load s))) = [JStr ''Getting packages for data store''] \<and>
   since s (snd (load s)) =
     [ConsoleLog (JStr ''Getting packages for data store''),
      ApiCall (next_promise s) GetPackages]"
  by (simp add: since_def) (simp add: load_def)

section \<open>The startup hook\<close>

text \<open>
  Claim C2. The startup hook calls \<^verbatim>\<open>store.get_packages()\<close>. The store has no such
  method, so the call raises a type error: \<^verbatim>\<open>load\<close> is not called, no fetch is
  initiated, the state of the store is unchanged and no asynchronous operation is returned.
\<close>

theorem hook_calls_missing_method:
  "init_shared_store s = (Inl (TypeError ''store.get_packages is not a function''), s)"
  by (simp add: init_shared_store_def call_method_def)

section \<open>One refresh: what each fetch publishes\<close>

text \<open>
  In the theorems of this section a refresh is one call of \<^verbatim>\<open>load\<close> after any history
  \<open>es\<close>, followed by the settlements of its fetches: \<open>pr\<close>, \<open>dr\<close> and \<open>ur\<close> are the
  outcomes of the packages, database-info and upgradable fetches (\<open>None\<close>: the fetch never
  settles), and \<open>b\<close> tells which of the two later settlements arrives first.
\<close>

text \<open>
  Claim C5. For each fetch of a refresh that is answered with a response, the payload is
  published into the channel of the fetch if and only if the status code of the response is
  200: the publications into the channel are then exactly that payload, and the channel
  holds it. On any other code the message is logged, nothing is published into the channel
  and the channel keeps its value. (The database-info and upgradable fetches are answered
  only when the packages fetch has been fulfilled.)
\<close>

theorem published_iff_status_200:
  "(pr = Some (Fulfilled rp) \<longrightarrow>
      published Packages (refresh_effects es pr dr ur b) =
        (if code rp = 200 then [message rp] else []) \<and>
      chan_value Packages (refreshed es pr dr ur b) =
        (if code rp = 200 then message rp else chan_value Packages (reached es)) \<and>
      (code rp \<noteq> 200 \<longrightarrow> message rp \<in> set (logged (refresh_effects es pr dr ur b)))) \<and>
   (pr = Some (Fulfilled rp) \<and> dr = Some (Fulfilled rd) \<longrightarrow>
      published DbInfo (refresh_effects es pr dr ur b) =
        (if code rd = 200 then [message rd] else []) \<and>
      chan_value DbInfo (refreshed es pr dr ur b) =
        (if code rd = 200 then message rd else chan_value DbInfo (reached es)) \<and>
      (code rd \<noteq> 200 \<longrightarrow> message rd \<in> set (logged (refresh_effects es pr dr ur b)))) \<and>
   (pr = Some (Fulfilled rp) \<and> ur = Some (Fulfilled ru) \<longrightarrow>
      published Upgradable (refresh_effects es pr dr ur b) =
        (if code ru = 200 then [message ru] else []) \<and>
      chan_value Upgradable (refreshed es pr dr ur b) =
        (if code ru = 200 then message ru else chan_value Upgradable (reached es)) \<and>
      (code ru \<noteq> 200 \<longrightarrow> message ru \<in> set (logged (refresh_effects es pr dr ur b))))"
  by (simp add: chan_value_refreshed refresh_published refresh_logged
      split: option.splits outcome.splits)

theorem published_iff_status_200_witness:
  "published Packages
     (refresh_effects [] (Some (Fulfilled \<lparr>code = 200, message = JArr [JStr ''P'']\<rparr>))
        (Some (Fulfilled \<lparr>code = 500, message = JStr ''server error''\<rparr>))
        (Some (Fulfilled \<lparr>code = 200, message = JStr ''U''\<rparr>)) True) = [JArr [JStr ''P'']] \<and>
   published DbInfo
     (refresh_effects [] (Some (Fulfilled \<lparr>code = 200, message = JArr [JStr ''P'']\<rparr>))
        (Some (Fulfilled \<lparr>code = 500, message = JStr ''server error''\<rparr>))
        (Some (Fulfilled \<lparr>code = 200, message = JStr ''U''\<rparr>)) True) = [] \<and>
   chan_value DbInfo
     (refreshed [] (Some (Fulfilled \<lparr>code = 200, message = JArr [JStr ''P'']\<rparr>))
        (Some (Fulfilled \<lparr>code = 500, message = JStr ''server error''\<rparr>))
        (Some (Fulfilled \<lparr>code = 200, message = JStr ''U''\<rparr>)) True) = JObj [] \<and>
   JStr ''server error'' \<in> set (logged
     (refresh_effects [] (Some (Fulfilled \<lparr>code = 200, message = JArr [JStr ''P'']\<rparr>))
        (Some (Fulfilled \<lparr>code = 500, message = JStr ''server error''\<rparr>))
        (Some (Fulfilled \<lparr>code = 200, message = JStr ''U''\<rparr>)) True)) \<and>
   chan_value Upgradable
     (refreshed [] (Some (Fulfilled \<lparr>code = 200, message = JArr [JStr ''P'']\<rparr>))
        (Some (Fulfilled \<lparr>code = 500, message = JStr ''server error''\<rparr>))
        (Some (Fulfilled \<lparr>code = 200, message = JStr ''U''\<rparr>)) True) = JStr ''U''"
  using published_iff_status_200
    [of "Some (Fulfilled \<lparr>code = 200, message = JArr [JStr ''P'']\<rparr>)"
        "\<lparr>code = 200, message = JArr [JStr ''P'']\<rparr>" "[]"
        "Some (Fulfilled \<lparr>code = 500, message = JStr ''server error''\<rparr>)"
        "Some (Fulfilled \<lparr>code = 200, message = JStr ''U''\<rparr>)" True
        "\<lparr>code = 500, message = JStr ''server error''\<rparr>"
        "\<lparr>code = 200, message = JStr ''U''\<rparr>"]
  by (simp add: chan_value_new)



text \<open>
  Claim C3, as stated, fails. When the packages fetch is rejected, its handler never runs:
  the database-info and upgradable fetches are not initiated, and although the API would
  have answered both with status 200, nothing is published and both channels keep their
  default values.
\<close>

theorem rejected_packages_blocks_others:
  "chan_value DbInfo
     (refreshed [] (Some (Rejected (JStr ''network down'')))
        (Some (Fulfilled \<lparr>code = 200, message = JStr ''D''\<rparr>))
        (Some (Fulfilled \<lparr>code = 200, message = JStr ''U''\<rparr>)) False) = JObj [] \<and>
   chan_value Upgradable
     (refreshed [] (Some (Rejected (JStr ''network down'')))
        (Some (Fulfilled \<lparr>code = 200, message = JStr ''D''\<rparr>))
        (Some (Fulfilled \<lparr>code = 200, message = JStr ''U''\<rparr>)) False) =
     JObj [(''mmpm'', JBool False), (''MagicMirror'', JBool False), (''packages'', JArr [])] \<and>
   publications
     (refresh_effects [] (Some (Rejected (JStr ''network down'')))
        (Some (Fulfilled \<lparr>code = 200, message = JStr ''D''\<rparr>))
        (Some (Fulfilled \<lparr>code = 200, message = JStr ''U''\<rparr>)) False) = [] \<and>
   api_calls
     (refresh_effects [] (Some (Rejected (JStr ''network down'')))
        (Some (Fulfilled \<lparr>code = 200, message = JStr ''D''\<rparr>))
        (Some (Fulfilled \<lparr>code = 200, message = JStr ''U''\<rparr>)) False) = [(0, GetPackages)]"
  by (simp add: chan_value_refreshed refresh_publications refresh_api_calls chan_value_new)

text \<open>
  Claim C3, amended. Within one refresh, a channel whose fetch is answered with status 200
  is published into, whatever happens to the other fetches, provided that, for the
  database-info and upgradable channels, the packages fetch has been fulfilled (with any
  status code). So a status other than 200 on any of the three fetches, and a rejection or
  a missing settlement of the database-info or of the upgradable fetch, never prevent the
  publication of the other channels.
\<close>

theorem failure_spares_other_channels:
  "(pr = Some (Fulfilled rp) \<and> code rp = 200 \<longrightarrow>
      chan_value Packages (refreshed es pr dr ur b) = message rp \<and>
      published Packages (refresh_effects es pr dr ur b) = [message rp]) \<and>
   (pr = Some (Fulfilled rp) \<and> dr = Some (Fulfilled rd) \<and> code rd = 200 \<longrightarrow>
      chan_value DbInfo (refreshed es pr dr ur b) = message rd \<and>
      published DbInfo (refresh_effects es pr dr ur b) = [message rd]) \<and>
   (pr = Some (Fulfilled rp) \<and> ur = Some (Fulfilled ru) \<and> code ru = 200 \<longrightarrow>
      chan_value Upgradable (refreshed es pr dr ur b) = message ru \<and>
      published Upgradable (refresh_effects es pr dr ur b) = [message ru])"
  by (simp add: chan_value_refreshed refresh_published split: option.splits outcome.splits)

theorem failure_spares_other_channels_witness:
  "chan_value Packages
     (refreshed [] (Some (Fulfilled \<lparr>code = 200, message = JArr [JStr ''P'']\<rparr>))
        (Some (Fulfilled \<lparr>code = 200, message = JStr ''D''\<rparr>))
        (Some (Fulfilled \<lparr>code = 200, message = JStr ''U''\<rparr>)) False) = JArr [JStr ''P''] \<and>
   chan_value DbInfo
     (refreshed [] (Some (Fulfilled \<lparr>code = 500, message = JStr ''server error''\<rparr>))
        (Some (Fulfilled \<lparr>code = 200, message = JStr ''D''\<rparr>))
        (Some (Rejected (JStr ''network down''))) True) = JStr ''D'' \<and>
   chan_value Upgradable
     (refreshed [] (Some (Fulfilled \<lparr>code = 500, message = JStr ''server error''\<rparr>))
        None
        (Some (Fulfilled \<lparr>code = 200, message = JStr ''U''\<rparr>)) False) = JStr ''U''"
  using failure_spares_other_channels
    [of "Some (Fulfilled \<lparr>code = 200, message = JArr [JStr ''P'']\<rparr>)"
        "\<lparr>code = 200, message = JArr [JStr ''P'']\<rparr>" "[]"
        "Some (Fulfilled \<lparr>code = 200, message = JStr ''D''\<rparr>)"
        "Some (Fulfilled \<lparr>code = 200, message = JStr ''U''\<rparr>)" False
        "\<lparr>code = 200, message = JStr ''D''\<rparr>"
        "\<lparr>code = 200, message = JStr ''U''\<rparr>"]
    failure_spares_other_channels
    [of "Some (Fulfilled \<lparr>code = 500, message = JStr ''server error''\<rparr>)"
        "\<lparr>code = 500, message = JStr ''server error''\<rparr>" "[]"
        "Some (Fulfilled \<lparr>code = 200, message = JStr ''D''\<rparr>)"
        "Some (Rejected (JStr ''network down''))" True
        "\<lparr>code = 200, message = JStr ''D''\<rparr>"]
    failure_spares_other_channels
    [of "Some (Fulfilled \<lparr>code = 500, message = JStr ''server error''\<rparr>)"
        "\<lparr>code = 500, message = JStr ''server error''\<rparr>" "[]"
        None
        "Some (Fulfilled \<lparr>code = 200, message = JStr ''U''\<rparr>)" False
        _
        "\<lparr>code = 200, message = JStr ''U''\<rparr>"]
  by simp

section \<open>One refresh: the order of the fetches\<close>

text \<open>
  Claim C8, as stated, fails. The three fetches are not always initiated: when the packages
  fetch is rejected, or never settles, it is the only fetch of the refresh. Nor is every
  publication independent of the other fetches: while the packages fetch is pending, the
  database-info fetch has not been made, and the answer with status 200 that the API would
  give to it is not published.
\<close>

theorem packages_failure_stops_later_fetches:
  "api_calls
     (refresh_effects [] (Some (Rejected (JStr ''network down'')))
        (Some (Fulfilled \<lparr>code = 200, message = JStr ''D''\<rparr>))
        (Some (Fulfilled \<lparr>code = 200, message = JStr ''U''\<rparr>)) True) = [(0, GetPackages)] \<and>
   api_calls
     (refresh_effects [] None
        (Some (Fulfilled \<lparr>code = 200, message = JStr ''D''\<rparr>)) None False) =
     [(0, GetPackages)] \<and>
   published DbInfo
     (refresh_effects [] None
        (Some (Fulfilled \<lparr>code = 200, message = JStr ''D''\<rparr>)) None False) = [] \<and>
   chan_value DbInfo
     (refreshed [] None
        (Some (Fulfilled \<lparr>code = 200, message = JStr ''D''\<rparr>)) None False) = JObj []"
  by (simp add: refresh_api_calls refresh_published chan_value_refreshed chan_value_new)

text \<open>
  Claim C8, amended. The fetches of a refresh are initiated in a fixed order: the packages
  fetch first and then, once and only if the packages fetch has been fulfilled, the
  database-info fetch and the upgradable fetch, in that order. Each channel is published
  into when its own fetch is answered with status 200, while the fetches made so far are
  still pending: the packages channel while both later fetches are pending, the
  database-info channel while the upgradable fetch is pending, and the upgradable channel
  while the database-info fetch is pending.
\<close>

theorem fetches_in_fixed_order:
  "api_calls (refresh_effects es pr dr ur b) =
     (next_promise (reached es), GetPackages) #
     (case pr of
        Some (Fulfilled r) \<Rightarrow>
          [(next_promise (reached es) + 1, Get ''db/info''),
           (next_promise (reached es) + 2, Get ''db/upgradable'')]
      | _ \<Rightarrow> []) \<and>
   (code rp = 200 \<longrightarrow>
      chan_value Packages (refreshed es (Some (Fulfilled rp)) None None b) = message rp \<and>
      callbacks (refreshed es (Some (Fulfilled rp)) None None b)
        (next_promise (reached es) + 1) = Some OnDbInfo \<and>
      callbacks (refreshed es (Some (Fulfilled rp)) None None b)
        (next_promise (reached es) + 2) = Some OnUpgradable) \<and>
   (code rd = 200 \<longrightarrow>
      chan_value DbInfo (refreshed es (Some (Fulfilled rp)) (Some (Fulfilled rd)) None b) =
        message rd \<and>
      callbacks (refreshed es (Some (Fulfilled rp)) (Some (Fulfilled rd)) None b)
        (next_promise (reached es) + 2) = Some OnUpgradable) \<and>
   (code ru = 200 \<longrightarrow>
      chan_value Upgradable (refreshed es (Some (Fulfilled rp)) None (Some (Fulfilled ru)) b) =
        message ru \<and>
      callbacks (refreshed es (Some (Fulfilled rp)) None (Some (Fulfilled ru)) b)
        (next_promise (reached es) + 1) = Some OnDbInfo)"
  by (simp add: refresh_api_calls chan_value_refreshed callbacks_refreshed_pending)

theorem fetches_in_fixed_order_witness:
  "api_calls
     (refresh_effects [] (Some (Fulfilled \<lparr>code = 200, message = JArr [JStr ''P'']\<rparr>))
        (Some (Fulfilled \<lparr>code = 200, message = JStr ''D''\<rparr>))
        (Some (Fulfilled \<lparr>code = 200, message = JStr ''U''\<rparr>)) True) =
     [(0, GetPackages), (1, Get ''db/info''), (2, Get ''db/upgradable'')] \<and>
   chan_value Packages
     (refreshed [] (Some (Fulfilled \<lparr>code = 200, message = JArr [JStr ''P'']\<rparr>))
        None None True) = JArr [JStr ''P''] \<and>
   chan_value DbInfo
     (refreshed [] (Some (Fulfilled \<lparr>code = 200, message = JArr [JStr ''P'']\<rparr>))
        (Some (Fulfilled \<lparr>code = 200, message = JStr ''D''\<rparr>)) None True) = JStr ''D'' \<and>
   callbacks
     (refreshed [] (Some (Fulfilled \<lparr>code = 200, message = JArr [JStr ''P'']\<rparr>))
        (Some (Fulfilled \<lparr>code = 200, message = JStr ''D''\<rparr>)) None True) 2 =
     Some OnUpgradable \<and>
   chan_value Upgradable
     (refreshed [] (Some (Fulfilled \<lparr>code = 200, message = JArr [JStr ''P'']\<rparr>))
        None (Some (Fulfilled \<lparr>code = 200, message = JStr ''U''\<rparr>)) True) = JStr ''U'' \<and>
   callbacks
     (refreshed [] (Some (Fulfilled \<lparr>code = 200, message = JArr [JStr ''P'']\<rparr>))
        None (Some (Fulfilled \<lparr>code = 200, message = JStr ''U''\<rparr>)) True) 1 =
     Some OnDbInfo"
  using fetches_in_fixed_order
    [of "[]" "Some (Fulfilled \<lparr>code = 200, message = JArr [JStr ''P'']\<rparr>)"
        "Some (Fulfilled \<lparr>code = 200, message = JStr ''D''\<rparr>)"
        "Some (Fulfilled \<lparr>code = 200, message = JStr ''U''\<rparr>)" True
        "\<lparr>code = 200, message = JArr [JStr ''P'']\<rparr>"
        "\<lparr>code = 200, message = JStr ''D''\<rparr>"
        "\<lparr>code = 200, message = JStr ''U''\<rparr>"]
  by (simp add: numeral_2_eq_2)

text \<open>
  Claim C10. \<^verbatim>\<open>load\<close> itself initiates the packages fetch only. The database-info and
  upgradable fetches are initiated if and only if the packages fetch is fulfilled, and then
  by the handler of the packages fetch, after its publication. If the packages fetch never
  settles or is rejected, the database-info and upgradable subjects are unchanged by the
  refresh and nothing is published into them. Each channel is published into at most once
  by a refresh, and a publication into the packages channel comes before every other
  publication of the same refresh.
\<close>

theorem later_fetches_wait_for_packages:
  "api_calls (since (reached es) (snd (load (reached es)))) =
     [(next_promise (reached es), GetPackages)] \<and>
   ((next_promise (reached es) + 1, Get ''db/info'')
      \<in> set (api_calls (refresh_effects es pr dr ur b)) \<longleftrightarrow> (\<exists>r. pr = Some (Fulfilled r))) \<and>
   ((next_promise (reached es) + 2, Get ''db/upgradable'')
      \<in> set (api_calls (refresh_effects es pr dr ur b)) \<longleftrightarrow> (\<exists>r. pr = Some (Fulfilled r))) \<and>
   (pr = None \<or> pr = Some (Rejected e) \<longrightarrow>
      subject DbInfo (refreshed es pr dr ur b) = subject DbInfo (reached es) \<and>
      subject Upgradable (refreshed es pr dr ur b) = subject Upgradable (reached es) \<and>
      published DbInfo (refresh_effects es pr dr ur b) = [] \<and>
      published Upgradable (refresh_effects es pr dr ur b) = [] \<and>
      api_calls (refresh_effects es pr dr ur b) = [(next_promise (reached es), GetPackages)]) \<and>
   refresh_effects es (Some (Fulfilled rp)) None None b =
     [ConsoleLog (JStr ''Getting packages for data store''),
      ApiCall (next_promise (reached es)) GetPackages] @
     (if code rp = 200
      then [Published Packages (message rp), ConsoleLog (JStr ''Retrieved packages'')]
      else [ConsoleLog (message rp)]) @
     [ApiCall (next_promise (reached es) + 1) (Get ''db/info''),
      ApiCall (next_promise (reached es) + 2) (Get ''db/upgradable'')] \<and>
   distinct (publications (refresh_effects es pr dr ur b)) \<and>
   (Packages \<in> set (publications (refresh_effects es pr dr ur b)) \<longrightarrow>
      hd (publications (refresh_effects es pr dr ur b)) = Packages)"
proof -
  have 1: "api_calls (since (reached es) (snd (load (reached es)))) =
     [(next_promise (reached es), GetPackages)]"
    by (simp add: since_def)
  have 2: "((next_promise (reached es) + 1, Get ''db/info'')
      \<in> set (api_calls (refresh_effects es pr dr ur b)) \<longleftrightarrow> (\<exists>r. pr = Some (Fulfilled r)))"
    "((next_promise (reached es) + 2, Get ''db/upgradable'')
      \<in> set (api_calls (refresh_effects es pr dr ur b)) \<longleftrightarrow> (\<exists>r. pr = Some (Fulfilled r)))"
    by (auto simp: refresh_api_calls split: option.splits outcome.splits)
  have 3: "pr = None \<or> pr = Some (Rejected e) \<longrightarrow>
      subject DbInfo (refreshed es pr dr ur b) = subject DbInfo (reached es) \<and>
      subject Upgradable (refreshed es pr dr ur b) = subject Upgradable (reached es) \<and>
      published DbInfo (refresh_effects es pr dr ur b) = [] \<and>
      published Upgradable (refresh_effects es pr dr ur b) = [] \<and>
      api_calls (refresh_effects es pr dr ur b) = [(next_promise (reached es), GetPackages)]"
    by (auto simp: refreshed_subject refresh_published refresh_api_calls)
  have 4: "refresh_effects es (Some (Fulfilled rp)) None None b =
     [ConsoleLog (JStr ''Getting packages for data store''),
      ApiCall (next_promise (reached es)) GetPackages] @
     (if code rp = 200
      then [Published Packages (message rp), ConsoleLog (JStr ''Retrieved packages'')]
      else [ConsoleLog (message rp)]) @
     [ApiCall (next_promise (reached es) + 1) (Get ''db/info''),
      ApiCall (next_promise (reached es) + 2) (Get ''db/upgradable'')]"
    by (simp add: refresh_effects_eq later_effects_def callback_effects_def)
  have 5: "distinct (publications (refresh_effects es pr dr ur b))"
    by (simp add: refresh_publications split: option.splits outcome.splits)
  have 6: "Packages \<in> set (publications (refresh_effects es pr dr ur b)) \<longrightarrow>
      hd (publications (refresh_effects es pr dr ur b)) = Packages"
    by (simp add: refresh_publications split: option.splits outcome.splits)
  from 1 2 3 4 5 6 show ?thesis by blast
qed

theorem later_fetches_wait_for_packages_witness:
  "api_calls
     (refresh_effects [] (Some (Rejected (JStr ''network down'')))
        (Some (Fulfilled \<lparr>code = 200, message = JStr ''D''\<rparr>))
        (Some (Fulfilled \<lparr>code = 200, message = JStr ''U''\<rparr>)) False) = [(0, GetPackages)] \<and>
   published DbInfo
     (refresh_effects [] (Some (Rejected (JStr ''network down'')))
        (Some (Fulfilled \<lparr>code = 200, message = JStr ''D''\<rparr>))
        (Some (Fulfilled \<lparr>code = 200, message = JStr ''U''\<rparr>)) False) = [] \<and>
   published Upgradable
     (refresh_effects [] (Some (Rejected (JStr ''network down'')))
        (Some (Fulfilled \<lparr>code = 200, message = JStr ''D''\<rparr>))
        (Some (Fulfilled \<lparr>code = 200, message = JStr ''U''\<rparr>)) False) = [] \<and>
   Packages \<in> set (publications
     (refresh_effects [] (Some (Fulfilled \<lparr>code = 200, message = JArr [JStr ''P'']\<rparr>))
        (Some (Fulfilled \<lparr>code = 200, message = JStr ''D''\<rparr>))
        (Some (Fulfilled \<lparr>code = 200, message = JStr ''U''\<rparr>)) True)) \<and>
   hd (publications
     (refresh_effects [] (Some (Fulfilled \<lparr>code = 200, message = JArr [JStr ''P'']\<rparr>))
        (Some (Fulfilled \<lparr>code = 200, message = JStr ''D''\<rparr>))
        (Some (Fulfilled \<lparr>code = 200, message = JStr ''U''\<rparr>)) True)) = Packages"
  using later_fetches_wait_for_packages
    [of "[]" "Some (Rejected (JStr ''network down''))"
        "Some (Fulfilled \<lparr>code = 200, message = JStr ''D''\<rparr>)"
        "Some (Fulfilled \<lparr>code = 200, message = JStr ''U''\<rparr>)" False
        "JStr ''network down''"]
    later_fetches_wait_for_packages
    [of "[]" "Some (Fulfilled \<lparr>code = 200, message = JArr [JStr ''P'']\<rparr>)"
        "Some (Fulfilled \<lparr>code = 200, message = JStr ''D''\<rparr>)"
        "Some (Fulfilled \<lparr>code = 200, message = JStr ''U''\<rparr>)" True]
  by (simp add: refresh_publications)

section \<open>The channels never terminate\<close>

text \<open>
  Claim C9, as stated, fails in its clause on logging. A rejected fetch is not logged by the
  store: no call of \<^verbatim>\<open>then\<close> has a rejection handler, so the only effect of the
  rejection is that it is left, unhandled, to the runtime.
\<close>

theorem rejection_is_not_logged:
  "since (reached [Load]) (reached [Load, Settle 0 (Rejected (JStr ''network down''))]) =
     [UnhandledRejection 0 (JStr ''network down'')] \<and>
   logged (since (reached [Load])
             (reached [Load, Settle 0 (Rejected (JStr ''network down''))])) = []"
  by (simp add: reached_def since_def)

text \<open>
  Claim C9, amended. After every sequence of calls of \<^verbatim>\<open>load\<close>, settlements of fetches
  with any outcome, subscriptions and unsubscriptions, none of the three subjects is stopped
  or holds an error, and no subscriber of any channel has received a completion or an error
  notification: no failure of a fetch is propagated through a channel. A fetch answered
  with a status code other than 200 has its message logged by its handler, and changes no
  subject and publishes nothing. A rejected fetch changes no subject either; the store
  neither handles nor logs it, and the rejection is left to the runtime.
\<close>

theorem never_completes_never_errors:
  "\<not> isStopped (subject c (reached es)) \<and>
   thrownError (subject c (reached es)) = None \<and>
   Complete \<notin> set (received c k (reached es)) \<and>
   Error x \<notin> set (received c k (reached es)) \<and>
   subject c (settle p (Rejected x) s) = subject c s \<and>
   (callbacks s p = Some h \<longrightarrow>
      since s (settle p (Rejected x) s) = [UnhandledRejection p x] \<and>
      logged (since s (settle p (Rejected x) s)) = []) \<and>
   (callbacks s p = Some h \<and> code r \<noteq> 200 \<longrightarrow>
      subject c (settle p (Fulfilled r) s) = subject c s \<and>
      logged (since s (settle p (Fulfilled r) s)) = [message r] \<and>
      publications (since s (settle p (Fulfilled r) s)) = [])"
proof -
  have "tidy (subject c (reached es))" by (rule tidy_reached)
  then have 1: "\<not> isStopped (subject c (reached es))"
    and 2: "thrownError (subject c (reached es)) = None"
    by (simp_all add: tidy_def)
  have 3: "Complete \<notin> set (received c k (reached es))"
    using only_next_reached [of Complete c k es] by auto
  have 4: "Error x \<notin> set (received c k (reached es))"
    using only_next_reached [of "Error x" c k es] by auto
  have 5: "subject c (settle p (Rejected x) s) = subject c s"
    by (simp split: option.splits)
  have 6: "callbacks s p = Some h \<longrightarrow>
      since s (settle p (Rejected x) s) = [UnhandledRejection p x] \<and>
      logged (since s (settle p (Rejected x) s)) = []"
    by (simp add: since_def)
  have 7: "callbacks s p = Some h \<and> code r \<noteq> 200 \<longrightarrow>
      subject c (settle p (Fulfilled r) s) = subject c s \<and>
      logged (since s (settle p (Fulfilled r) s)) = [message r] \<and>
      publications (since s (settle p (Fulfilled r) s)) = []"
    by (simp add: since_def)
  from 1 2 3 4 5 6 7 show ?thesis by blast
qed

theorem never_completes_never_errors_witness:
  "\<not> isStopped
       (subject Packages
          (reached [Subscribe Packages, Load, Settle 0 (Rejected (JStr ''network down'')),
                    Load, Settle 1 (Fulfilled \<lparr>code = 500, message = JStr ''server error''\<rparr>)])) \<and>
   Complete \<notin> set
     (received Packages 0
        (reached [Subscribe Packages, Load, Settle 0 (Rejected (JStr ''network down'')),
                  Load, Settle 1 (Fulfilled \<lparr>code = 500, message = JStr ''server error''\<rparr>)])) \<and>
   Error (JStr ''network down'') \<notin> set
     (received Packages 0
        (reached [Subscribe Packages, Load, Settle 0 (Rejected (JStr ''network down'')),
                  Load, Settle 1 (Fulfilled \<lparr>code = 500, message = JStr ''server error''\<rparr>)])) \<and>
   since (reached [Load]) (settle 0 (Rejected (JStr ''network down'')) (reached [Load])) =
     [UnhandledRejection 0 (JStr ''network down'')] \<and>
   logged (since (reached [Load])
             (settle 0 (Fulfilled \<lparr>code = 500, message = JStr ''server error''\<rparr>)
                (reached [Load]))) = [JStr ''server error'']"
  using never_completes_never_errors
    [where c = Packages and k = 0 and x = "JStr ''network down''" and p = 0
       and s = "reached [Load]" and h = OnPackages
       and r = "\<lparr>code = 500, message = JStr ''server error''\<rparr>"
       and es = "[Subscribe Packages, Load, Settle 0 (Rejected (JStr ''network down'')),
          Load, Settle 1 (Fulfilled \<lparr>code = 500, message = JStr ''server error''\<rparr>)]"]
  by (simp add: reached_def)

section \<open>Replay of the latest value\<close>

text \<open>
  Claim C6. After any history, a subscriber of any of the three channels receives at once,
  as its first notification, the value the channel holds, and that value is the one
  published last, or the default value if nothing has been published, however long before
  the subscription the publication occurred. From then on, for as long as it does not
  unsubscribe, the subscriber receives exactly the values published into the channel
  afterwards, in order. A publication is delivered to every subscriber subscribed at that
  moment.
\<close>

theorem replay_of_latest:
  "received c (subscribed (subject c (reached es))) (reached (es @ [Subscribe c])) =
     [Next (chan_value c (reached es))] \<and>
   chan_value c (reached es) = last (default_value c # published c (effects (reached es))) \<and>
   (Unsubscribe c (subscribed (subject c (reached es))) \<notin> set es' \<longrightarrow>
      received c (subscribed (subject c (reached es))) (reached (es @ Subscribe c # es')) =
        Next (chan_value c (reached es)) #
        map Next (published c
          (since (reached (es @ [Subscribe c])) (reached (es @ Subscribe c # es'))))) \<and>
   (j \<in> set (observers (subject c (reached es))) \<longrightarrow>
      received c j (publish c v (reached es)) = received c j (reached es) @ [Next v])"
proof -
  let ?s = "reached es"
  let ?k = "subscribed (subject c ?s)"
  let ?s1 = "reached (es @ [Subscribe c])"
  have t: "tidy (subject c' ?s)" for c' by (rule tidy_reached)
  have t1: "tidy (subject c' ?s1)" for c' by (rule tidy_reached)
  have s1: "subject c ?s1 = subscribe (subject c ?s)"
    by (simp add: reached_snoc)
  have a: "received c ?k ?s1 = [Next (chan_value c ?s)]"
    by (simp add: received_def chan_value_def s1 subscribe_new [OF t])
  have k1: "?k \<in> set (observers (subject c ?s1))"
    by (simp add: s1 subscribe_new [OF t])
  have b: "chan_value c ?s = last (default_value c # published c (effects ?s))"
    by (rule reached_chan_value)
  have c: "received c ?k (reached (es @ Subscribe c # es')) =
        Next (chan_value c ?s) # map Next (published c (since ?s1 (reached (es @ Subscribe c # es'))))"
    if u: "Unsubscribe c ?k \<notin> set es'"
  proof -
    have r: "reached (es @ Subscribe c # es') = run es' ?s1"
      by (simp add: reached_def)
    have "inbox (subject c (run es' ?s1)) ?k =
        inbox (subject c ?s1) ?k @ map Next (published c (since ?s1 (run es' ?s1)))"
      using t1 k1 u by (rule run_subscriber)
    with a show ?thesis by (simp add: r received_def)
  qed
  have d: "received c j (publish c v ?s) = received c j ?s @ [Next v]"
    if "j \<in> set (observers (subject c ?s))"
    using that by (simp add: received_def next_value_subscriber(1) [OF t])
  from a b c d show ?thesis by blast
qed

theorem replay_of_latest_witness:
  "received Packages 0
     (reached ([Load, Settle 0 (Fulfilled \<lparr>code = 200, message = JArr [JStr ''P'']\<rparr>)] @
        [Subscribe Packages])) = [Next (JArr [JStr ''P''])] \<and>
   received Packages 0
     (reached ([Load, Settle 0 (Fulfilled \<lparr>code = 200, message = JArr [JStr ''P'']\<rparr>)] @
        Subscribe Packages #
        [Load, Settle 3 (Fulfilled \<lparr>code = 200, message = JArr [JStr ''Q'']\<rparr>)])) =
     [Next (JArr [JStr ''P'']), Next (JArr [JStr ''Q''])]"
  using replay_of_latest
    [of Packages "[Load, Settle 0 (Fulfilled \<lparr>code = 200, message = JArr [JStr ''P'']\<rparr>)]"
        "[Load, Settle 3 (Fulfilled \<lparr>code = 200, message = JArr [JStr ''Q'']\<rparr>)]"]
  by (simp add: reached_def since_def chan_value_def subject_new
      new_BehaviorSubject_def numeral_3_eq_3 callback_effects_def)

end
